theory Spec2Isabelle
  imports Main
begin

section \<open>Data model of the ReAct agent (flow/agent/react/react.go)\<close>

text \<open>
  The message type of package schema, restricted to the fields the agent reads.
  A tool call carries an optional stream index, an identifier, a type and the
  function name with its (possibly partial) arguments.
\<close>

record FunctionCall =
  Name :: string
  Arguments :: string

record ToolCall =
  Index :: "int option"
  ID :: string
  Type :: string
  Function :: FunctionCall

datatype RoleType = User | Assistant | System | Tool

record Message =
  Role :: RoleType
  Content :: string
  ToolCalls :: "ToolCall list"
  ToolCallID :: string

text \<open>A \<open>*schema.Message\<close>: \<open>None\<close> is the nil pointer.\<close>

type_synonym msg_ptr = "Message option"

text \<open>
  Errors of a run. \<open>ErrNoValue\<close> is schema.ErrNoValue, \<open>ErrExceedMaxSteps\<close> the
  failure of the graph engine when its step bound is used up; the others stand
  for failures of the stream, of the model or tool capability, and of the
  registration of the state type.
\<close>

datatype error =
    ErrNoValue
  | ErrExceedMaxSteps
  | StreamError string
  | ExecError string
  | RegisterError string

section \<open>The default stream tool-call checker\<close>

text \<open>
  A stream reader is the finite list of what successive \<open>Recv\<close> calls return:
  \<open>Inr msg\<close> for a fragment, \<open>Inl e\<close> for a read failure; the end of the list
  is \<open>io.EOF\<close>.
\<close>

type_synonym stream = "(error + Message) list"

fun firstChunkStreamToolCallChecker :: "stream \<Rightarrow> error + bool" where
  "firstChunkStreamToolCallChecker [] = Inr False"
| "firstChunkStreamToolCallChecker (Inl err # sr) = Inl err"
| "firstChunkStreamToolCallChecker (Inr msg # sr) =
     (if length (ToolCalls msg) > 0 then Inr True
      else if length (Content msg) = 0 then firstChunkStreamToolCallChecker sr
      else Inr False)"

text \<open>A fragment that is empty both in content and in tool calls.\<close>

definition empty_chunk :: "Message \<Rightarrow> bool" where
  "empty_chunk msg \<longleftrightarrow> Content msg = [] \<and> ToolCalls msg = []"

definition fragment :: "string \<Rightarrow> ToolCall list \<Rightarrow> Message" where
  "fragment c tcs = \<lparr>Role = Assistant, Content = c, ToolCalls = tcs, ToolCallID = []\<rparr>"

definition call :: "string \<Rightarrow> string \<Rightarrow> ToolCall" where
  "call i n = \<lparr>Index = None, ID = i, Type = ''function'',
     Function = \<lparr>Name = n, Arguments = []\<rparr>\<rparr>"

section \<open>Slices of message pointers\<close>

text \<open>
  The history is a Go slice, and the message modifier receives a slice as well,
  so the backing arrays are kept in an explicit store: an address is a position
  in the store, a slice header has the address of its array, a length and a
  capacity (the agent never re-slices, so every slice starts at offset 0).
\<close>

type_synonym addr = nat
type_synonym heap = "msg_ptr list list"

record slice =
  base :: addr
  len :: nat
  cap :: nat

definition slice_read :: "heap \<Rightarrow> slice \<Rightarrow> msg_ptr list" where
  "slice_read h s = take (len s) (h ! base s)"

text \<open>\<open>make([]*schema.Message, n, c)\<close>: a fresh array of \<open>c\<close> nil pointers.\<close>

definition make_slice :: "heap \<Rightarrow> nat \<Rightarrow> nat \<Rightarrow> heap \<times> slice" where
  "make_slice h n c = (h @ [replicate c None], \<lparr>base = length h, len = n, cap = c\<rparr>)"

text \<open>
  \<open>append(s, xs...)\<close>: written in place when the capacity suffices, otherwise
  the elements move to a fresh, larger array (the growth factor of the runtime
  is taken as doubling; nothing below depends on it).
\<close>

definition go_append :: "heap \<Rightarrow> slice \<Rightarrow> msg_ptr list \<Rightarrow> heap \<times> slice" where
  "go_append h s xs =
     (let n = len s + length xs in
      if n \<le> cap s
      then (h[base s := take (len s) (h ! base s) @ xs @ drop n (h ! base s)], s\<lparr>len := n\<rparr>)
      else (let c = max (2 * cap s) n in
            (h @ [slice_read h s @ xs @ replicate (c - n) None],
             \<lparr>base = length h, len = n, cap = c\<rparr>)))"

text \<open>\<open>copy(dst, src)\<close> copies \<open>min(len(dst), len(src))\<close> elements.\<close>

definition go_copy :: "heap \<Rightarrow> slice \<Rightarrow> msg_ptr list \<Rightarrow> heap" where
  "go_copy h dst src =
     (let n = min (len dst) (length src) in
      h[base dst := take n src @ drop n (h ! base dst)])"

text \<open>A slice header that points into the store.\<close>

definition wf_slice :: "heap \<Rightarrow> slice \<Rightarrow> bool" where
  "wf_slice h s \<longleftrightarrow> base s < length h \<and> len s \<le> cap s \<and> length (h ! base s) = cap s"

section \<open>The state of a run and the two pre-handlers\<close>

record state =
  Messages :: slice
  ReturnDirectlyToolCallID :: string

text \<open>
  A message modifier is a Go function on a slice: it reads and writes the store
  and returns a slice.
\<close>

type_synonym MessageModifier = "heap \<Rightarrow> slice \<Rightarrow> heap \<times> slice"

definition SystemMessage :: "string \<Rightarrow> Message" where
  "SystemMessage content = \<lparr>Role = System, Content = content, ToolCalls = [], ToolCallID = []\<rparr>"

definition NewPersonaModifier :: "string \<Rightarrow> MessageModifier" where
  "NewPersonaModifier persona = (\<lambda>h input.
     (let (h1, res) = make_slice h 0 (len input + 1);
          (h2, res1) = go_append h1 res [Some (SystemMessage persona)]
      in go_append h2 res1 (slice_read h2 input)))"

definition modelPreHandle ::
  "MessageModifier option \<Rightarrow> heap \<Rightarrow> msg_ptr list \<Rightarrow> state \<Rightarrow> heap \<times> state \<times> slice" where
  "modelPreHandle messageModifier h input st =
     (let (h1, s1) = go_append h (Messages st) input;
          st1 = st\<lparr>Messages := s1\<rparr>
      in case messageModifier of
           None \<Rightarrow> (h1, st1, Messages st1)
         | Some f \<Rightarrow>
             (let (h2, modifiedInput) = make_slice h1 (len (Messages st1)) (len (Messages st1));
                  h3 = go_copy h2 modifiedInput (slice_read h2 (Messages st1));
                  (h4, res) = f h3 modifiedInput
              in (h4, st1, res)))"

fun getReturnDirectlyToolCalls :: "ToolCall list \<Rightarrow> string set \<Rightarrow> string" where
  "getReturnDirectlyToolCalls [] toolReturnDirectly = []"
| "getReturnDirectlyToolCalls (toolCall # rest) toolReturnDirectly =
     (if Name (Function toolCall) \<in> toolReturnDirectly then ID toolCall
      else getReturnDirectlyToolCalls rest toolReturnDirectly)"

definition getReturnDirectlyToolCallID :: "Message \<Rightarrow> string set \<Rightarrow> string" where
  "getReturnDirectlyToolCallID input toolReturnDirectly =
     (if toolReturnDirectly = {} then []
      else getReturnDirectlyToolCalls (ToolCalls input) toolReturnDirectly)"

text \<open>
  The pre-handler of the tools node. With a nil input it indexes the history at
  \<open>len - 1\<close>, which panics on an empty history: the result is \<open>None\<close> there.
\<close>

definition toolsNodePreHandle ::
  "string set \<Rightarrow> heap \<Rightarrow> msg_ptr \<Rightarrow> state \<Rightarrow> (heap \<times> state \<times> msg_ptr) option" where
  "toolsNodePreHandle toolReturnDirectly h input st =
     (case input of
        None \<Rightarrow>
          (if len (Messages st) = 0 then None
           else Some (h, st, (h ! base (Messages st)) ! (len (Messages st) - 1)))
      | Some m \<Rightarrow>
          (let (h1, s1) = go_append h (Messages st) [input]
           in Some (h1,
                st\<lparr>Messages := s1,
                   ReturnDirectlyToolCallID := getReturnDirectlyToolCallID m toolReturnDirectly\<rparr>,
                input)))"

section \<open>The direct-return extractor\<close>

text \<open>
  The convert function that directReturn hands to the stream converter: the
  loop over one batch of tool results, which stops at the first non-nil message
  whose \<open>ToolCallID\<close> is the marker of the state, and \<open>schema.ErrNoValue\<close>
  when the loop finds none.
\<close>

fun directReturn_convert :: "state \<Rightarrow> msg_ptr list \<Rightarrow> error + Message" where
  "directReturn_convert st [] = Inl ErrNoValue"
| "directReturn_convert st (None # msgs) = directReturn_convert st msgs"
| "directReturn_convert st (Some m # msgs) =
     (if ToolCallID m = ReturnDirectlyToolCallID st then Inr m
      else directReturn_convert st msgs)"

text \<open>A stream of batches of tool results, as the tools node delivers it.\<close>

type_synonym batch_stream = "(error + msg_ptr list) list"

text \<open>
  directReturn itself: it passes the stream of batches and the convert function
  to \<open>schema.StreamReaderWithConvert\<close>, which is outside the sources and is the
  parameter \<open>convertStream\<close> here, and returns the converted stream together
  with a nil error.
\<close>

definition directReturn ::
  "(batch_stream \<Rightarrow> (msg_ptr list \<Rightarrow> error + Message) \<Rightarrow> stream) \<Rightarrow>
   batch_stream \<Rightarrow> state \<Rightarrow> error + stream" where
  "directReturn convertStream msgs st = Inr (convertStream msgs (directReturn_convert st))"

section \<open>Auxiliary definitions\<close>

text \<open>
  What a message modifier may touch: the array of the slice it is given and
  arrays it allocates itself. Every other array of the store is left as it was.
\<close>

definition modifier_frame :: "MessageModifier \<Rightarrow> bool" where
  "modifier_frame f \<longleftrightarrow>
     (\<forall>h s. case f h s of (h', r) \<Rightarrow>
        length h \<le> length h' \<and> (\<forall>a<length h. a \<noteq> base s \<longrightarrow> h' ! a = h ! a))"

text \<open>Messages used in the examples.\<close>

definition UserMessage :: "string \<Rightarrow> Message" where
  "UserMessage content = \<lparr>Role = User, Content = content, ToolCalls = [], ToolCallID = []\<rparr>"

definition ToolMessage :: "string \<Rightarrow> string \<Rightarrow> Message" where
  "ToolMessage content toolCallID =
     \<lparr>Role = Tool, Content = content, ToolCalls = [], ToolCallID = toolCallID\<rparr>"

text \<open>A modifier that overwrites the slice it is given with nil pointers.\<close>

definition wipe :: MessageModifier where
  "wipe = (\<lambda>h s. (h[base s := replicate (length (h ! base s)) None], s))"

section \<open>The graph built by NewAgent\<close>

text \<open>
  The configuration of the agent. The chat model (with the tool catalogue bound)
  and the tools node are capabilities from outside: the model maps the message
  list it is given to an assistant message or a failure, the tools node maps an
  assistant message to the batch of tool results or a failure. \<open>MaxStep\<close> is
  the Go int handed to the graph compiler as the step bound.
\<close>

record AgentConfig =
  ToolCallingModel :: "msg_ptr list \<Rightarrow> error + Message"
  ToolsConfig :: "Message \<Rightarrow> error + msg_ptr list"
  MessageModifier :: "MessageModifier option"
  MaxStep :: int
  ToolReturnDirectly :: "string set"
  StreamToolCallChecker :: "(stream \<Rightarrow> error + bool) option"

datatype node = START | END | nodeKeyModel | nodeKeyTools | nodeKeyDirectReturn

text \<open>What leaves a node: a fixed edge, or a branch that reads the output
  stream of the node, or a branch that reads the state.\<close>

datatype successor =
    Edge node
  | StreamBranch "stream \<Rightarrow> error + node"
  | StateBranch "state \<Rightarrow> node"

definition toolCallChecker :: "AgentConfig \<Rightarrow> stream \<Rightarrow> error + bool" where
  "toolCallChecker config =
     (case StreamToolCallChecker config of
        None \<Rightarrow> firstChunkStreamToolCallChecker
      | Some checker \<Rightarrow> checker)"

definition modelPostBranchCondition :: "AgentConfig \<Rightarrow> stream \<Rightarrow> error + node" where
  "modelPostBranchCondition config sr =
     (case toolCallChecker config sr of
        Inl err \<Rightarrow> Inl err
      | Inr isToolCall \<Rightarrow> if isToolCall then Inr nodeKeyTools else Inr END)"

text \<open>The branch after the tools node that buildReturnDirectly adds.\<close>

definition returnDirectlyBranch :: "state \<Rightarrow> node" where
  "returnDirectlyBranch st =
     (if length (ReturnDirectlyToolCallID st) > 0 then nodeKeyDirectReturn else nodeKeyModel)"

text \<open>
  The wiring: START to the model node, the branch after the model node, and
  after the tools node either the direct-return branch with the edge from the
  direct-return node to END (when the direct-return set is not empty) or the
  edge back to the model node.
\<close>

definition NewAgent_graph :: "AgentConfig \<Rightarrow> node \<Rightarrow> successor option" where
  "NewAgent_graph config n =
     (case n of
        START \<Rightarrow> Some (Edge nodeKeyModel)
      | nodeKeyModel \<Rightarrow> Some (StreamBranch (modelPostBranchCondition config))
      | nodeKeyTools \<Rightarrow>
          (if ToolReturnDirectly config \<noteq> {} then Some (StateBranch returnDirectlyBranch)
           else Some (Edge nodeKeyModel))
      | nodeKeyDirectReturn \<Rightarrow>
          (if ToolReturnDirectly config \<noteq> {} then Some (Edge END) else None)
      | END \<Rightarrow> None)"

section \<open>The graph engine\<close>

text \<open>The value that travels along an edge.\<close>

datatype val = VMsgs "msg_ptr list" | VMsg Message

text \<open>
  Modelled from the spec: the scheduling engine of package compose is not part
  of the sources. It follows a fixed edge, or asks the branch of the node it has
  just run, the stream branch on the output of the node (in a blocking call
  the one message as a stream of one fragment) and the state branch on the
  state of the run.
\<close>

definition next_node ::
  "(node \<Rightarrow> successor option) \<Rightarrow> node \<Rightarrow> stream \<Rightarrow> state \<Rightarrow> error + node" where
  "next_node g n sr st =
     (case g n of
        None \<Rightarrow> Inl (ExecError ''no successor'')
      | Some (Edge m) \<Rightarrow> Inr m
      | Some (StreamBranch f) \<Rightarrow> f sr
      | Some (StateBranch f) \<Rightarrow> Inr (f st))"

text \<open>
  Modelled from the spec: \<open>schema.StreamReaderWithConvert\<close> is not part of the
  sources, and the spec has the extractor turn the results of one tool
  execution into the one result that matches the marker. The converted stream
  has the converted items in order; an item for which the convert function
  answers \<open>ErrNoValue\<close> is left out, any other error of the convert function
  and every read failure is delivered in place of the item.
\<close>

fun StreamReaderWithConvert ::
  "(error + 'a) list \<Rightarrow> ('a \<Rightarrow> error + 'b) \<Rightarrow> (error + 'b) list" where
  "StreamReaderWithConvert [] convert = []"
| "StreamReaderWithConvert (Inl err # sr) convert = Inl err # StreamReaderWithConvert sr convert"
| "StreamReaderWithConvert (Inr x # sr) convert =
     (case convert x of
        Inr y \<Rightarrow> Inr y # StreamReaderWithConvert sr convert
      | Inl err \<Rightarrow>
          if err = ErrNoValue then StreamReaderWithConvert sr convert
          else Inl err # StreamReaderWithConvert sr convert)"

definition stream_of :: "val \<Rightarrow> stream" where
  "stream_of v = (case v of VMsg m \<Rightarrow> [Inr m] | VMsgs ms \<Rightarrow> [])"

text \<open>
  Modelled from the spec: one node of the graph run by the engine, the
  pre-handler first, then the capability of the node. In a blocking call the
  direct-return node gets the batch of tool results as a stream of one item,
  and its output is the one message of the stream it returns; a stream without
  a message is a failure of the run.
\<close>

definition exec_node ::
  "AgentConfig \<Rightarrow> node \<Rightarrow> val \<Rightarrow> heap \<Rightarrow> state \<Rightarrow> (error + val) \<times> heap \<times> state" where
  "exec_node config n v h st =
     (case (n, v) of
        (nodeKeyModel, VMsgs input) \<Rightarrow>
          (let (h1, st1, sl) = modelPreHandle (MessageModifier config) h input st
           in case ToolCallingModel config (slice_read h1 sl) of
                Inl err \<Rightarrow> (Inl err, h1, st1)
              | Inr out \<Rightarrow> (Inr (VMsg out), h1, st1))
      | (nodeKeyTools, VMsg m) \<Rightarrow>
          (case toolsNodePreHandle (ToolReturnDirectly config) h (Some m) st of
             None \<Rightarrow> (Inl (ExecError ''index out of range''), h, st)
           | Some (h1, st1, None) \<Rightarrow> (Inl (ExecError ''nil message''), h1, st1)
           | Some (h1, st1, Some m1) \<Rightarrow>
               (case ToolsConfig config m1 of
                  Inl err \<Rightarrow> (Inl err, h1, st1)
                | Inr msgs \<Rightarrow> (Inr (VMsgs msgs), h1, st1)))
      | (nodeKeyDirectReturn, VMsgs msgs) \<Rightarrow>
          (case directReturn StreamReaderWithConvert [Inr msgs] st of
             Inl err \<Rightarrow> (Inl err, h, st)
           | Inr [] \<Rightarrow> (Inl (ExecError ''stream reader is empty''), h, st)
           | Inr (Inl err # sr) \<Rightarrow> (Inl err, h, st)
           | Inr (Inr msg # sr) \<Rightarrow> (Inr (VMsg msg), h, st))
      | _ \<Rightarrow> (Inl (ExecError ''type mismatch''), h, st))"

text \<open>
  Modelled from the spec: the run of the compiled graph, bounded by the maximum
  step count. Every node that runs uses one step; when no step is left the run
  fails with \<open>ErrExceedMaxSteps\<close>. The result carries the nodes that ran, in
  order.
\<close>

type_synonym run_result = "(error + Message) \<times> heap \<times> state \<times> node list"

fun run ::
  "AgentConfig \<Rightarrow> nat \<Rightarrow> node \<Rightarrow> val \<Rightarrow> heap \<Rightarrow> state \<Rightarrow> node list \<Rightarrow> run_result" where
  "run config 0 n v h st tr = (Inl ErrExceedMaxSteps, h, st, tr)"
| "run config (Suc k) n v h st tr =
     (case exec_node config n v h st of
        (Inl err, h1, st1) \<Rightarrow> (Inl err, h1, st1, tr @ [n])
      | (Inr out, h1, st1) \<Rightarrow>
          (case next_node (NewAgent_graph config) n (stream_of out) st1 of
             Inl err \<Rightarrow> (Inl err, h1, st1, tr @ [n])
           | Inr nxt \<Rightarrow>
               if nxt = END
               then (case out of
                       VMsg m \<Rightarrow> (Inr m, h1, st1, tr @ [n])
                     | VMsgs ms \<Rightarrow> (Inl (ExecError ''type mismatch''), h1, st1, tr @ [n]))
               else run config k nxt out h1 st1 (tr @ [n])))"

text \<open>
  Modelled from the spec: the step bound of the compiled graph. The compiler of
  package compose is not part of the sources; the comment of \<open>MaxStep\<close> in
  AgentConfig gives its default for a bound of 0, the number of nodes plus 10,
  which is 12 for the graph of the model and the tools node.
\<close>

definition nodeNum :: "AgentConfig \<Rightarrow> nat" where
  "nodeNum config = (if ToolReturnDirectly config \<noteq> {} then 3 else 2)"

definition maxRunSteps :: "AgentConfig \<Rightarrow> nat" where
  "maxRunSteps config =
     (if MaxStep config = 0 then nodeNum config + 10 else nat (MaxStep config))"

text \<open>
  The blocking entry point. A negative step bound fails the call before any
  node runs. Otherwise the run starts in a fresh state (an empty history of
  capacity \<open>MaxStep + 1\<close>, an empty marker) at the successor of START.
\<close>

definition Generate :: "AgentConfig \<Rightarrow> msg_ptr list \<Rightarrow> run_result" where
  "Generate config input =
     (if MaxStep config < 0
      then (Inl (ExecError ''max run steps limit must be at least 1''), [],
            \<lparr>Messages = \<lparr>base = 0, len = 0, cap = 0\<rparr>, ReturnDirectlyToolCallID = []\<rparr>, [])
      else
        (let (h0, s0) = make_slice [] 0 (nat (MaxStep config + 1));
             st0 = \<lparr>Messages = s0, ReturnDirectlyToolCallID = []\<rparr>
         in case next_node (NewAgent_graph config) START [] st0 of
              Inl err \<Rightarrow> (Inl err, h0, st0, [])
            | Inr n \<Rightarrow> run config (maxRunSteps config) n (VMsgs input) h0 st0 []))"

text \<open>Example configurations: the scenarios of a search tool.\<close>

definition searchModel :: "string \<Rightarrow> msg_ptr list \<Rightarrow> error + Message" where
  "searchModel callID msgs =
     (if length msgs \<le> 1 then Inr (fragment [] [call callID ''search''])
      else Inr (fragment ''done'' []))"

definition searchTools :: "Message \<Rightarrow> error + msg_ptr list" where
  "searchTools m = Inr (map (\<lambda>tc. Some (ToolMessage ''result'' (ID tc))) (ToolCalls m))"

definition searchConfig :: "string \<Rightarrow> string set \<Rightarrow> int \<Rightarrow> AgentConfig" where
  "searchConfig callID direct steps =
     \<lparr>ToolCallingModel = searchModel callID, ToolsConfig = searchTools,
      MessageModifier = None, MaxStep = steps, ToolReturnDirectly = direct,
      StreamToolCallChecker = None\<rparr>"

text \<open>The nodes of a run that goes back and forth between model and tools.\<close>

fun alternate :: "node \<Rightarrow> nat \<Rightarrow> node list" where
  "alternate n 0 = []"
| "alternate n (Suc k) =
     n # alternate (if n = nodeKeyModel then nodeKeyTools else nodeKeyModel) k"


text \<open>A configuration whose checker never reports a tool call.\<close>

definition deafConfig :: AgentConfig where
  "deafConfig =
     \<lparr>ToolCallingModel = (\<lambda>msgs. Inr (fragment [] [call ''c1'' ''search''])),
      ToolsConfig = searchTools,
      MessageModifier = None, MaxStep = 12, ToolReturnDirectly = {},
      StreamToolCallChecker = Some (\<lambda>sr. Inr False)\<rparr>"

section \<open>The one-time registration of the state type\<close>

text \<open>
  What NewAgent shares between its calls in one process: the \<open>sync.Once\<close>
  guard \<open>registerStateOnce\<close> and the registry of serializable type names.
\<close>

record process =
  registerStateOnce :: bool
  registry :: "string set"

text \<open>
  \<open>compose.RegisterSerializableType\<close> is outside the sources; \<open>reg\<close> stands
  for it and tells, from the registry and the name, whether the registration
  fails. A registration that does not fail adds the name.
\<close>

type_synonym registrar = "string set \<Rightarrow> string \<Rightarrow> error option"

definition RegisterSerializableType ::
  "registrar \<Rightarrow> string \<Rightarrow> process \<Rightarrow> error option \<times> process" where
  "RegisterSerializableType reg name p =
     (case reg (registry p) name of
        Some err \<Rightarrow> (Some err, p)
      | None \<Rightarrow> (None, p\<lparr>registry := insert name (registry p)\<rparr>))"

text \<open>
  \<open>once.Do(f)\<close> runs \<open>f\<close> on the first call only and marks the guard as
  done whatever \<open>f\<close> did. The function passed by NewAgent assigns the result of
  the registration to \<open>err\<close>, which is nil when the function does not run.
\<close>

definition registerState :: "registrar \<Rightarrow> process \<Rightarrow> error option \<times> process" where
  "registerState reg p =
     (if registerStateOnce p then (None, p)
      else (let (err, p1) = RegisterSerializableType reg ''_eino_react_state'' p
            in (err, p1\<lparr>registerStateOnce := True\<rparr>)))"

text \<open>
  NewAgent: the registration, then the construction of the agent, which is
  \<open>build\<close> here (the tool catalogue, the nodes and the compilation of the
  graph, with their own failures).
\<close>

definition NewAgent :: "registrar \<Rightarrow> (error + 'a) \<Rightarrow> process \<Rightarrow> (error + 'a) \<times> process" where
  "NewAgent reg build p =
     (case registerState reg p of
        (Some err, p1) \<Rightarrow> (Inl err, p1)
      | (None, p1) \<Rightarrow> (build, p1))"

text \<open>Calls of NewAgent one after the other in one process.\<close>

fun NewAgent_calls ::
  "(registrar \<times> (error + 'a)) list \<Rightarrow> process \<Rightarrow> (error + 'a) list \<times> process" where
  "NewAgent_calls [] p = ([], p)"
| "NewAgent_calls ((reg, build) # calls) p =
     (let (r, p1) = NewAgent reg build p;
          (rs, p2) = NewAgent_calls calls p1
      in (r # rs, p2))"

section \<open>The chunk merge of the streaming notes (concatToolCalls)\<close>

text \<open>
  The first loop of concatToolCalls: a chunk without index goes to the result
  as it is, the position of a chunk with an index is added to the group of
  that index.
\<close>

type_synonym indexGroups = "int \<rightharpoonup> nat list"

definition groupStep ::
  "ToolCall list \<times> indexGroups \<Rightarrow> nat \<times> ToolCall \<Rightarrow> ToolCall list \<times> indexGroups" where
  "groupStep acc ic =
     (case acc of (merged, indexGroups) \<Rightarrow>
      case ic of (i, chunk) \<Rightarrow>
        (case Index chunk of
           None \<Rightarrow> (merged @ [chunk], indexGroups)
         | Some ix \<Rightarrow>
             (merged,
              indexGroups(ix \<mapsto> (case indexGroups ix of None \<Rightarrow> [] | Some l \<Rightarrow> l) @ [i]))))"

definition groupChunks :: "ToolCall list \<Rightarrow> ToolCall list \<times> indexGroups" where
  "groupChunks chunks = foldl groupStep ([], Map.empty) (enumerate 0 chunks)"

text \<open>
  The body of the inner loop, on the result under construction and the
  builder of the arguments: a non-empty ID, type or name of the chunk is
  assigned to the result, non-empty arguments are written to the builder.
\<close>

definition mergeChunk :: "ToolCall \<times> string \<Rightarrow> ToolCall \<Rightarrow> ToolCall \<times> string" where
  "mergeChunk acc chunk =
     (case acc of (result, argsBuilder) \<Rightarrow>
       (let r1 = (if ID chunk \<noteq> [] then result\<lparr>ID := ID chunk\<rparr> else result);
            r2 = (if Type chunk \<noteq> [] then r1\<lparr>Type := Type chunk\<rparr> else r1);
            r3 = (if Name (Function chunk) \<noteq> []
                  then r2\<lparr>Function := (Function r2)\<lparr>Name := Name (Function chunk)\<rparr>\<rparr>
                  else r2);
            a = (if Arguments (Function chunk) \<noteq> []
                 then argsBuilder @ Arguments (Function chunk) else argsBuilder)
        in (r3, a)))"

text \<open>
  The inner loop over the positions of one group (the positions come from the
  first loop, so they are within the chunks).
\<close>

definition mergeGroup :: "ToolCall list \<Rightarrow> int \<Rightarrow> nat list \<Rightarrow> ToolCall" where
  "mergeGroup chunks index chunkIndices =
     (let (result, argsBuilder) =
            foldl (\<lambda>acc chunkIdx. mergeChunk acc (chunks ! chunkIdx))
              (\<lparr>Index = Some index, ID = [], Type = [],
                Function = \<lparr>Name = [], Arguments = []\<rparr>\<rparr>, [])
              chunkIndices
      in result\<lparr>Function := (Function result)\<lparr>Arguments := argsBuilder\<rparr>\<rparr>)"

text \<open>
  concatToolCalls. Go does not fix the order in which \<open>range\<close> visits the keys
  of a map: \<open>keys\<close> is that order, a list of the keys of the groups without
  repetition.
\<close>

definition range_order :: "int list \<Rightarrow> indexGroups \<Rightarrow> bool" where
  "range_order keys g \<longleftrightarrow> distinct keys \<and> set keys = dom g"

definition concatToolCalls :: "int list \<Rightarrow> ToolCall list \<Rightarrow> error + ToolCall list" where
  "concatToolCalls keys chunks =
     (let (merged, indexGroups) = groupChunks chunks
      in Inr (merged @
           map (\<lambda>index. mergeGroup chunks index
                  (case indexGroups index of None \<Rightarrow> [] | Some l \<Rightarrow> l)) keys))"

text \<open>
  What concatToolCalls gives for the chunks of one index: of the values of ID,
  type and name the one assigned last, which is the last non-empty one, and the
  arguments in arrival order.
\<close>

definition last_nonempty :: "string list \<Rightarrow> string" where
  "last_nonempty xs = (let ys = filter (\<lambda>x. x \<noteq> []) xs in if ys = [] then [] else last ys)"

definition merged_request :: "int \<Rightarrow> ToolCall list \<Rightarrow> ToolCall" where
  "merged_request ix grp =
     \<lparr>Index = Some ix, ID = last_nonempty (map ID grp), Type = last_nonempty (map Type grp),
      Function = \<lparr>Name = last_nonempty (map (\<lambda>c. Name (Function c)) grp),
                  Arguments = concat (map (\<lambda>c. Arguments (Function c)) grp)\<rparr>\<rparr>"

section \<open>The full-consume checker\<close>







text \<open>
  The merged request of one index in the words of the specification: for
  identifier, type and name the first non-empty value among the fragments of
  the index, in arrival order, and the arguments of these fragments
  concatenated in arrival order.
\<close>

definition first_nonempty :: "string list \<Rightarrow> string" where
  "first_nonempty xs = (case filter (\<lambda>x. x \<noteq> []) xs of [] \<Rightarrow> [] | y # ys \<Rightarrow> y)"

definition first_request :: "int \<Rightarrow> ToolCall list \<Rightarrow> ToolCall" where
  "first_request ix grp =
     \<lparr>Index = Some ix, ID = first_nonempty (map ID grp), Type = first_nonempty (map Type grp),
      Function = \<lparr>Name = first_nonempty (map (\<lambda>c. Name (Function c)) grp),
                  Arguments = concat (map (\<lambda>c. Arguments (Function c)) grp)\<rparr>\<rparr>"


section \<open>Properties of the default checker\<close>

lemma checker_skip_empty:
  "list_all empty_chunk pre \<Longrightarrow>
   firstChunkStreamToolCallChecker (map Inr pre @ sr) = firstChunkStreamToolCallChecker sr"
  by (induction pre) (simp_all add: empty_chunk_def)

text \<open>
  C2. On a stream of fragments the default checker skips the fragments that are
  empty in content and tool calls; it answers true at the first fragment with a
  non-empty tool-call list, false at the first fragment with non-empty content
  and no tool call, and false when the stream ends with neither. In particular
  an empty fragment followed by a fragment with tool calls gives true.
\<close>

theorem firstChunk_checker_spec:
  "(list_all empty_chunk pre \<and> ToolCalls m \<noteq> [] \<longrightarrow>
      firstChunkStreamToolCallChecker (map Inr pre @ Inr m # sr) = Inr True)
   \<and> (list_all empty_chunk pre \<and> ToolCalls m = [] \<and> Content m \<noteq> [] \<longrightarrow>
      firstChunkStreamToolCallChecker (map Inr pre @ Inr m # sr) = Inr False)
   \<and> (list_all empty_chunk pre \<longrightarrow>
      firstChunkStreamToolCallChecker (map Inr pre) = Inr False)
   \<and> (empty_chunk e \<and> ToolCalls m \<noteq> [] \<longrightarrow>
      firstChunkStreamToolCallChecker (Inr e # Inr m # sr) = Inr True)"
proof -
  have skip: "list_all empty_chunk pre \<Longrightarrow>
      firstChunkStreamToolCallChecker (map Inr pre @ s) = firstChunkStreamToolCallChecker s" for s
    by (rule checker_skip_empty)
  have a: "list_all empty_chunk pre \<and> ToolCalls m \<noteq> [] \<longrightarrow>
      firstChunkStreamToolCallChecker (map Inr pre @ Inr m # sr) = Inr True"
    by (simp add: skip)
  have b: "list_all empty_chunk pre \<and> ToolCalls m = [] \<and> Content m \<noteq> [] \<longrightarrow>
      firstChunkStreamToolCallChecker (map Inr pre @ Inr m # sr) = Inr False"
    by (simp add: skip)
  have c: "list_all empty_chunk pre \<longrightarrow>
      firstChunkStreamToolCallChecker (map Inr pre) = Inr False"
    using skip [of "[]"] by simp
  have d: "empty_chunk e \<and> ToolCalls m \<noteq> [] \<longrightarrow>
      firstChunkStreamToolCallChecker (Inr e # Inr m # sr) = Inr True"
    by (simp add: empty_chunk_def)
  from a b c d show ?thesis by blast
qed

theorem firstChunk_checker_spec_witness:
  "firstChunkStreamToolCallChecker
     (map Inr [fragment [] []] @ Inr (fragment [] [call ''c1'' ''search'']) # []) = Inr True
   \<and> firstChunkStreamToolCallChecker
     (map Inr [fragment [] []] @ Inr (fragment ''hi'' []) # [Inr (fragment [] [call ''c1'' ''search''])]) = Inr False
   \<and> firstChunkStreamToolCallChecker (map Inr [fragment [] [], fragment [] []]) = Inr False
   \<and> firstChunkStreamToolCallChecker
     (Inr (fragment [] []) # Inr (fragment [] [call ''c1'' ''search'']) # []) = Inr True"
proof -
  have e: "list_all empty_chunk [fragment [] []]" "list_all empty_chunk [fragment [] [], fragment [] []]"
    "empty_chunk (fragment [] [])"
    by (simp_all add: empty_chunk_def fragment_def)
  have t: "ToolCalls (fragment [] [call ''c1'' ''search'']) \<noteq> []"
    "ToolCalls (fragment ''hi'' []) = []" "Content (fragment ''hi'' []) \<noteq> []"
    by (simp_all add: fragment_def)
  show ?thesis
    using firstChunk_checker_spec [of "[fragment [] []]" "fragment [] [call ''c1'' ''search'']" "[]"
        "fragment [] []"]
      firstChunk_checker_spec [of "[fragment [] []]" "fragment ''hi'' []"
        "[Inr (fragment [] [call ''c1'' ''search''])]" "fragment [] []"]
      firstChunk_checker_spec [of "[fragment [] [], fragment [] []]" "fragment [] []" "[]" "fragment [] []"]
      e t
    by simp
qed

section \<open>Properties of slices\<close>

lemma go_append_read:
  assumes "wf_slice h s" "go_append h s xs = (h', s')"
  shows "slice_read h' s' = slice_read h s @ xs" "wf_slice h' s'" "length h \<le> length h'"
  using assms
  by (auto simp: go_append_def wf_slice_def slice_read_def Let_def nth_append split: if_splits)

lemma go_copy_read:
  assumes "base mi < length h" "length (h ! base mi) = len mi" "length src = len mi"
  shows "slice_read (go_copy h mi src) mi = src"
  using assms by (simp add: go_copy_def slice_read_def)

lemma go_copy_frame: "a \<noteq> base mi \<Longrightarrow> go_copy h mi src ! a = h ! a"
  by (simp add: go_copy_def Let_def)

lemma go_copy_length: "length (go_copy h mi src) = length h"
  by (simp add: go_copy_def Let_def)

lemma modifier_frameD:
  "modifier_frame f \<Longrightarrow> f h s = (h', r) \<Longrightarrow> a < length h \<Longrightarrow> a \<noteq> base s \<Longrightarrow> h' ! a = h ! a"
  unfolding modifier_frame_def by (metis (mono_tags, lifting) case_prodD)

lemma NewPersonaModifier_frame: "modifier_frame (NewPersonaModifier persona)"
  unfolding modifier_frame_def
  by (auto simp: NewPersonaModifier_def make_slice_def go_append_def Let_def nth_append
      slice_read_def split: prod.splits if_splits)

section \<open>Properties of the direct-return extractor\<close>

lemma directReturn_first:
  "\<forall>x. Some x \<in> set pre \<longrightarrow> ToolCallID x \<noteq> ReturnDirectlyToolCallID st \<Longrightarrow>
   ToolCallID m = ReturnDirectlyToolCallID st \<Longrightarrow>
   directReturn_convert st (pre @ Some m # post) = Inr m"
proof (induction pre)
  case Nil
  then show ?case by simp
next
  case (Cons p pre)
  then show ?case by (cases p) auto
qed

lemma directReturn_none:
  "\<forall>x. Some x \<in> set msgs \<longrightarrow> ToolCallID x \<noteq> ReturnDirectlyToolCallID st \<Longrightarrow>
   directReturn_convert st msgs = Inl ErrNoValue"
proof (induction msgs)
  case Nil
  then show ?case by simp
next
  case (Cons p msgs)
  then show ?case by (cases p) auto
qed

lemma directReturn_convert_error:
  "directReturn_convert st msgs = Inl err \<Longrightarrow> err = ErrNoValue"
proof (induction msgs)
  case Nil
  then show ?case by simp
next
  case (Cons p msgs)
  then show ?case by (cases p) (auto split: if_splits)
qed

lemma directReturn_blocking:
  "directReturn StreamReaderWithConvert [Inr msgs] st =
     Inr (case directReturn_convert st msgs of Inr m \<Rightarrow> [Inr m] | Inl err \<Rightarrow> [])"
  by (auto simp: directReturn_def split: sum.splits dest: directReturn_convert_error)

text \<open>
  C4 (the extractor hands the missing match to the converter). directReturn
  never fails: whatever the converter is, it returns the converted stream and
  no error. Its convert function maps a batch to the first non-nil result
  whose \<open>ToolCallID\<close> is the marker, and answers \<open>ErrNoValue\<close> for a batch in
  which no result matches the marker; this goes to the converter and is not the
  result of the extractor. With the converter that leaves out the items
  answered by \<open>ErrNoValue\<close>, the stream returned for one batch has the first
  matching result as its only message, or no message at all.
\<close>

theorem directReturn_spec:
  "directReturn convertStream sr st = Inr (convertStream sr (directReturn_convert st))
   \<and> ((\<forall>x. Some x \<in> set pre \<longrightarrow> ToolCallID x \<noteq> ReturnDirectlyToolCallID st)
      \<and> ToolCallID m = ReturnDirectlyToolCallID st
      \<longrightarrow> directReturn_convert st (pre @ Some m # post) = Inr m
        \<and> directReturn StreamReaderWithConvert [Inr (pre @ Some m # post)] st = Inr [Inr m])
   \<and> ((\<forall>x. Some x \<in> set msgs \<longrightarrow> ToolCallID x \<noteq> ReturnDirectlyToolCallID st)
      \<longrightarrow> directReturn_convert st msgs = Inl ErrNoValue
        \<and> directReturn StreamReaderWithConvert [Inr msgs] st = Inr [])"
  using directReturn_first [of pre st m post] directReturn_none [of msgs st]
  by (simp add: directReturn_blocking) (simp add: directReturn_def)

theorem directReturn_spec_witness:
  "directReturn StreamReaderWithConvert
     [Inr ([None, Some (ToolMessage ''r0'' ''c0'')] @ Some (ToolMessage ''r1'' ''c1'')
       # [Some (ToolMessage ''r2'' ''c1'')])]
     \<lparr>Messages = \<lparr>base = 0, len = 0, cap = 0\<rparr>, ReturnDirectlyToolCallID = ''c1''\<rparr>
     = Inr [Inr (ToolMessage ''r1'' ''c1'')]
   \<and> directReturn_convert
     \<lparr>Messages = \<lparr>base = 0, len = 0, cap = 0\<rparr>, ReturnDirectlyToolCallID = ''c1''\<rparr>
     [Some (ToolMessage ''r0'' ''c0'')] = Inl ErrNoValue"
  using directReturn_spec [of StreamReaderWithConvert "[]"
      "\<lparr>Messages = \<lparr>base = 0, len = 0, cap = 0\<rparr>, ReturnDirectlyToolCallID = ''c1''\<rparr>"
      "[None, Some (ToolMessage ''r0'' ''c0'')]"
      "ToolMessage ''r1'' ''c1''" "[Some (ToolMessage ''r2'' ''c1'')]"
      "[Some (ToolMessage ''r0'' ''c0'')]"]
  by (simp add: ToolMessage_def)

text \<open>
  That the extractor fails with \<open>ErrNoValue\<close> when no result matches a
  non-empty marker does not hold: for a batch whose only result belongs to
  another call, and for an empty batch, it returns a stream without a message
  and no error.
\<close>

theorem directReturn_no_match_counterexample:
  "ReturnDirectlyToolCallID
     \<lparr>Messages = \<lparr>base = 0, len = 0, cap = 0\<rparr>, ReturnDirectlyToolCallID = ''c1''\<rparr> \<noteq> []
   \<and> directReturn StreamReaderWithConvert [Inr [Some (ToolMessage ''r0'' ''c0'')]]
       \<lparr>Messages = \<lparr>base = 0, len = 0, cap = 0\<rparr>, ReturnDirectlyToolCallID = ''c1''\<rparr>
       = Inr []
   \<and> directReturn StreamReaderWithConvert [Inr []]
       \<lparr>Messages = \<lparr>base = 0, len = 0, cap = 0\<rparr>, ReturnDirectlyToolCallID = ''c1''\<rparr>
       = Inr []
   \<and> directReturn StreamReaderWithConvert [Inr [Some (ToolMessage ''r0'' ''c0'')]]
       \<lparr>Messages = \<lparr>base = 0, len = 0, cap = 0\<rparr>, ReturnDirectlyToolCallID = ''c1''\<rparr>
       \<noteq> Inl ErrNoValue"
  by (simp add: directReturn_def ToolMessage_def)

section \<open>Properties of the pre-handler of the tools node\<close>

lemma getReturnDirectly_first:
  "\<forall>tc \<in> set pre. Name (Function tc) \<notin> trd \<Longrightarrow> Name (Function c) \<in> trd \<Longrightarrow>
   getReturnDirectlyToolCalls (pre @ c # post) trd = ID c"
  by (induction pre) auto

lemma getReturnDirectly_none:
  "\<forall>tc \<in> set tcs. Name (Function tc) \<notin> trd \<Longrightarrow> getReturnDirectlyToolCalls tcs trd = []"
  by (induction tcs) auto

lemma toolsNodePreHandle_Some:
  assumes "wf_slice h (Messages st)"
  shows "\<exists>h' st'. toolsNodePreHandle trd h (Some m) st = Some (h', st', Some m)
     \<and> slice_read h' (Messages st') = slice_read h (Messages st) @ [Some m]
     \<and> wf_slice h' (Messages st')
     \<and> ReturnDirectlyToolCallID st' = getReturnDirectlyToolCallID m trd"
proof -
  obtain h1 s1 where a: "go_append h (Messages st) [Some m] = (h1, s1)" by force
  from go_append_read [OF assms a] show ?thesis
    by (simp add: toolsNodePreHandle_def a)
qed

lemma toolsNodePreHandle_None:
  assumes "wf_slice h (Messages st)"
  shows "toolsNodePreHandle trd h None st =
    (if slice_read h (Messages st) = [] then None
     else Some (h, st, last (slice_read h (Messages st))))"
  using assms
  by (auto simp: toolsNodePreHandle_def wf_slice_def slice_read_def last_conv_nth)

text \<open>
  C6. With a non-nil input the pre-handler of the tools node appends the message
  to the history and sets the marker to the ID of the first tool call, in
  request order, whose function name is in the direct-return set, whatever
  calls follow it; the marker is the empty string when the set is empty or no
  call's name is in it.
\<close>

theorem toolsNodePreHandle_input_spec:
  assumes "wf_slice h (Messages st)"
  shows "\<exists>h' st'. toolsNodePreHandle trd h (Some m) st = Some (h', st', Some m)
     \<and> slice_read h' (Messages st') = slice_read h (Messages st) @ [Some m]
     \<and> (\<forall>pre c post. ToolCalls m = pre @ c # post
           \<and> (\<forall>tc \<in> set pre. Name (Function tc) \<notin> trd) \<and> Name (Function c) \<in> trd
           \<longrightarrow> ReturnDirectlyToolCallID st' = ID c)
     \<and> (trd = {} \<or> (\<forall>tc \<in> set (ToolCalls m). Name (Function tc) \<notin> trd)
           \<longrightarrow> ReturnDirectlyToolCallID st' = [])"
proof -
  from toolsNodePreHandle_Some [OF assms] obtain h' st' where
    r: "toolsNodePreHandle trd h (Some m) st = Some (h', st', Some m)"
       "slice_read h' (Messages st') = slice_read h (Messages st) @ [Some m]"
       "ReturnDirectlyToolCallID st' = getReturnDirectlyToolCallID m trd"
    by blast
  have first: "ReturnDirectlyToolCallID st' = ID c"
    if "ToolCalls m = pre @ c # post" "\<forall>tc \<in> set pre. Name (Function tc) \<notin> trd"
       "Name (Function c) \<in> trd" for pre c post
  proof -
    from that(3) have "trd \<noteq> {}" by blast
    then show ?thesis
      using that getReturnDirectly_first [of pre trd c post]
      by (simp add: r(3) getReturnDirectlyToolCallID_def)
  qed
  have none: "ReturnDirectlyToolCallID st' = []"
    if "trd = {} \<or> (\<forall>tc \<in> set (ToolCalls m). Name (Function tc) \<notin> trd)"
    using that getReturnDirectly_none [of "ToolCalls m" trd]
    by (auto simp: r(3) getReturnDirectlyToolCallID_def)
  from r(1) r(2) first none show ?thesis by blast
qed

text \<open>
  C9. With a nil input the pre-handler of the tools node returns the last
  message of the history and changes neither the store nor the state; on an
  empty history the index \<open>len - 1\<close> is out of range and there is no result.
\<close>

theorem toolsNodePreHandle_nil_spec:
  assumes "wf_slice h (Messages st)"
  shows "(slice_read h (Messages st) \<noteq> [] \<longrightarrow>
           toolsNodePreHandle trd h None st = Some (h, st, last (slice_read h (Messages st))))
       \<and> (slice_read h (Messages st) = [] \<longrightarrow> toolsNodePreHandle trd h None st = None)"
  using toolsNodePreHandle_None [OF assms, of trd] by simp

theorem toolsNodePreHandle_input_spec_witness:
  "wf_slice [[None, None, None]] \<lparr>base = 0, len = 0, cap = 3\<rparr>
   \<and> (\<exists>h' st'. toolsNodePreHandle {''search''} [[None, None, None]]
          (Some (fragment [] [call ''c0'' ''calc'', call ''c1'' ''search'', call ''c2'' ''search'']))
          \<lparr>Messages = \<lparr>base = 0, len = 0, cap = 3\<rparr>, ReturnDirectlyToolCallID = []\<rparr>
        = Some (h', st',
            Some (fragment [] [call ''c0'' ''calc'', call ''c1'' ''search'', call ''c2'' ''search'']))
      \<and> slice_read h' (Messages st')
        = [Some (fragment [] [call ''c0'' ''calc'', call ''c1'' ''search'', call ''c2'' ''search''])]
      \<and> ReturnDirectlyToolCallID st' = ''c1'')"
proof -
  let ?h = "[[None, None, None]] :: heap"
  let ?st = "\<lparr>Messages = \<lparr>base = 0, len = 0, cap = 3\<rparr>, ReturnDirectlyToolCallID = []\<rparr>"
  let ?m = "fragment [] [call ''c0'' ''calc'', call ''c1'' ''search'', call ''c2'' ''search'']"
  have wf: "wf_slice ?h (Messages ?st)" by (simp add: wf_slice_def)
  from toolsNodePreHandle_input_spec [OF wf, of "{''search''}" ?m]
  obtain h' st' where
    r: "toolsNodePreHandle {''search''} ?h (Some ?m) ?st = Some (h', st', Some ?m)"
       "slice_read h' (Messages st') = slice_read ?h (Messages ?st) @ [Some ?m]"
       "\<forall>pre c post. ToolCalls ?m = pre @ c # post
           \<and> (\<forall>tc \<in> set pre. Name (Function tc) \<notin> {''search''}) \<and> Name (Function c) \<in> {''search''}
           \<longrightarrow> ReturnDirectlyToolCallID st' = ID c"
    by blast
  have "ToolCalls ?m = [call ''c0'' ''calc''] @ call ''c1'' ''search'' # [call ''c2'' ''search'']
      \<and> (\<forall>tc \<in> set [call ''c0'' ''calc'']. Name (Function tc) \<notin> {''search''})
      \<and> Name (Function (call ''c1'' ''search'')) \<in> {''search''}"
    by (simp add: fragment_def call_def)
  with r(3) have "ReturnDirectlyToolCallID st' = ID (call ''c1'' ''search'')" by blast
  then have i: "ReturnDirectlyToolCallID st' = ''c1''" by (simp add: call_def)
  from r(2) have "slice_read h' (Messages st') = [Some ?m]" by (simp add: slice_read_def)
  with wf r(1) i show ?thesis by auto
qed

theorem toolsNodePreHandle_nil_spec_witness:
  "wf_slice [[Some (UserMessage ''hi''), None]] \<lparr>base = 0, len = 1, cap = 2\<rparr>
   \<and> toolsNodePreHandle {} [[Some (UserMessage ''hi''), None]] None
        \<lparr>Messages = \<lparr>base = 0, len = 1, cap = 2\<rparr>, ReturnDirectlyToolCallID = ''c1''\<rparr>
      = Some ([[Some (UserMessage ''hi''), None]],
          \<lparr>Messages = \<lparr>base = 0, len = 1, cap = 2\<rparr>, ReturnDirectlyToolCallID = ''c1''\<rparr>,
          Some (UserMessage ''hi''))
   \<and> wf_slice [[None, None]] \<lparr>base = 0, len = 0, cap = 2\<rparr>
   \<and> toolsNodePreHandle {} [[None, None]] None
        \<lparr>Messages = \<lparr>base = 0, len = 0, cap = 2\<rparr>, ReturnDirectlyToolCallID = []\<rparr> = None"
proof -
  have wf1: "wf_slice [[Some (UserMessage ''hi''), None]]
      (Messages \<lparr>Messages = \<lparr>base = 0, len = 1, cap = 2\<rparr>, ReturnDirectlyToolCallID = ''c1''\<rparr>)"
    by (simp add: wf_slice_def)
  have wf2: "wf_slice [[None, None]]
      (Messages \<lparr>Messages = \<lparr>base = 0, len = 0, cap = 2\<rparr>, ReturnDirectlyToolCallID = []\<rparr>)"
    by (simp add: wf_slice_def)
  show ?thesis
    using toolsNodePreHandle_nil_spec [OF wf1, of "{}"] toolsNodePreHandle_nil_spec [OF wf2, of "{}"]
      wf1 wf2
    by (simp add: slice_read_def)
qed

section \<open>Properties of the pre-handler of the model node\<close>

lemma modelPreHandle_None:
  assumes "wf_slice h (Messages st)"
  shows "\<exists>h1 st1. modelPreHandle None h input st = (h1, st1, Messages st1)
     \<and> slice_read h1 (Messages st1) = slice_read h (Messages st) @ input
     \<and> wf_slice h1 (Messages st1)
     \<and> ReturnDirectlyToolCallID st1 = ReturnDirectlyToolCallID st"
proof -
  obtain h1 s1 where a: "go_append h (Messages st) input = (h1, s1)" by force
  from go_append_read [OF assms a] show ?thesis
    by (simp add: modelPreHandle_def a)
qed

lemma modelPreHandle_Some:
  assumes wf: "wf_slice h (Messages st)" and fr: "modifier_frame f"
  shows "\<exists>h3 modifiedInput h4 st1 res.
       modelPreHandle (Some f) h input st = (h4, st1, res)
     \<and> f h3 modifiedInput = (h4, res)
     \<and> base modifiedInput \<noteq> base (Messages st1)
     \<and> slice_read h3 modifiedInput = slice_read h (Messages st) @ input
     \<and> slice_read h4 (Messages st1) = slice_read h (Messages st) @ input
     \<and> wf_slice h4 (Messages st1)
     \<and> ReturnDirectlyToolCallID st1 = ReturnDirectlyToolCallID st"
proof -
  obtain h1 s1 where a: "go_append h (Messages st) input = (h1, s1)" by force
  note r = go_append_read [OF wf a]
  define n where "n = len s1"
  define mi where "mi = \<lparr>base = length h1, len = n, cap = n\<rparr>"
  define h2 where "h2 = h1 @ [replicate n (None :: msg_ptr)]"
  define h3 where "h3 = go_copy h2 mi (slice_read h2 s1)"
  obtain h4 res where f: "f h3 mi = (h4, res)" by force
  have b1: "base s1 < length h1" using r(2) by (simp add: wf_slice_def)
  have rd2: "slice_read h2 s1 = slice_read h1 s1"
    using b1 by (simp add: h2_def slice_read_def nth_append)
  have ln: "length (slice_read h1 s1) = n"
    using r(2) by (simp add: slice_read_def wf_slice_def n_def)
  have rd3: "slice_read h3 mi = slice_read h1 s1"
    unfolding h3_def rd2
    by (rule go_copy_read) (simp_all add: mi_def h2_def ln)
  have ne: "base mi \<noteq> base s1" using b1 by (simp add: mi_def)
  have h3s1: "h3 ! base s1 = h1 ! base s1"
    using b1 ne by (simp add: h3_def go_copy_frame h2_def nth_append)
  have l3: "base s1 < length h3" using b1 by (simp add: h3_def go_copy_length h2_def)
  have h4s1: "h4 ! base s1 = h3 ! base s1"
    using modifier_frameD [OF fr f l3] ne by simp
  have rd4: "slice_read h4 s1 = slice_read h1 s1"
    using h4s1 h3s1 by (simp add: slice_read_def)
  have l4: "length h3 \<le> length h4"
    using fr f unfolding modifier_frame_def by (metis (mono_tags, lifting) case_prodD)
  have wf4: "wf_slice h4 s1"
    using r(2) h4s1 h3s1 l3 l4 by (simp add: wf_slice_def)
  have m: "modelPreHandle (Some f) h input st = (h4, st\<lparr>Messages := s1\<rparr>, res)"
    using f by (simp add: modelPreHandle_def a make_slice_def Let_def
        h3_def [symmetric] h2_def [symmetric] mi_def [symmetric] n_def [symmetric])
  show ?thesis
    using m f ne rd3 rd4 r(1) wf4
    by (intro exI [of _ h3] exI [of _ mi] exI [of _ h4] exI [of _ "st\<lparr>Messages := s1\<rparr>"]
        exI [of _ res]) simp
qed

text \<open>
  C7. The pre-handler of the model node appends the input to the history. With
  no modifier it returns the history slice itself. With a modifier, the
  modifier is applied to a slice on another array holding a copy of the
  history, and as long as the modifier writes only to the array it is given (or
  to arrays of its own) the history kept in the state is the history after the
  append, whatever the modifier returns.
\<close>

theorem modelPreHandle_spec:
  assumes "wf_slice h (Messages st)"
  shows "(\<exists>h1 st1. modelPreHandle None h input st = (h1, st1, Messages st1)
           \<and> slice_read h1 (Messages st1) = slice_read h (Messages st) @ input)
       \<and> (modifier_frame f \<longrightarrow>
           (\<exists>h3 modifiedInput h4 st1 res.
               modelPreHandle (Some f) h input st = (h4, st1, res)
             \<and> f h3 modifiedInput = (h4, res)
             \<and> base modifiedInput \<noteq> base (Messages st1)
             \<and> slice_read h3 modifiedInput = slice_read h (Messages st) @ input
             \<and> slice_read h4 (Messages st1) = slice_read h (Messages st) @ input))"
proof -
  from modelPreHandle_None [OF assms, of input]
  have a: "\<exists>h1 st1. modelPreHandle None h input st = (h1, st1, Messages st1)
           \<and> slice_read h1 (Messages st1) = slice_read h (Messages st) @ input"
    by blast
  have b: "\<exists>h3 modifiedInput h4 st1 res.
               modelPreHandle (Some f) h input st = (h4, st1, res)
             \<and> f h3 modifiedInput = (h4, res)
             \<and> base modifiedInput \<noteq> base (Messages st1)
             \<and> slice_read h3 modifiedInput = slice_read h (Messages st) @ input
             \<and> slice_read h4 (Messages st1) = slice_read h (Messages st) @ input"
    if "modifier_frame f"
    using modelPreHandle_Some [OF assms that, of input] by blast
  from a b show ?thesis by blast
qed

lemma wipe_frame: "modifier_frame wipe"
  by (simp add: modifier_frame_def wipe_def)

theorem modelPreHandle_spec_witness:
  "wf_slice [[Some (UserMessage ''a''), None]] \<lparr>base = 0, len = 1, cap = 2\<rparr>
   \<and> modifier_frame wipe
   \<and> (\<exists>h4 st1 res.
        modelPreHandle (Some wipe) [[Some (UserMessage ''a''), None]] [Some (UserMessage ''b'')]
          \<lparr>Messages = \<lparr>base = 0, len = 1, cap = 2\<rparr>, ReturnDirectlyToolCallID = []\<rparr>
        = (h4, st1, res)
      \<and> slice_read h4 res = [None, None]
      \<and> slice_read h4 (Messages st1) = [Some (UserMessage ''a''), Some (UserMessage ''b'')])"
proof -
  let ?h = "[[Some (UserMessage ''a''), None]] :: heap"
  let ?st = "\<lparr>Messages = \<lparr>base = 0, len = 1, cap = 2\<rparr>, ReturnDirectlyToolCallID = []\<rparr>"
  have wf: "wf_slice ?h (Messages ?st)" by (simp add: wf_slice_def)
  from modelPreHandle_spec [OF wf, of "[Some (UserMessage ''b'')]" wipe] wipe_frame
  obtain h3 mi h4 st1 res where
    r: "modelPreHandle (Some wipe) ?h [Some (UserMessage ''b'')] ?st = (h4, st1, res)"
       "wipe h3 mi = (h4, res)"
       "slice_read h3 mi = slice_read ?h (Messages ?st) @ [Some (UserMessage ''b'')]"
       "slice_read h4 (Messages st1) = slice_read ?h (Messages ?st) @ [Some (UserMessage ''b'')]"
    by blast
  have m: "modelPreHandle (Some wipe) ?h [Some (UserMessage ''b'')] ?st =
      ([[Some (UserMessage ''a''), Some (UserMessage ''b'')], [None, None]],
       \<lparr>Messages = \<lparr>base = 0, len = 2, cap = 2\<rparr>, ReturnDirectlyToolCallID = []\<rparr>,
       \<lparr>base = 1, len = 2, cap = 2\<rparr>)"
    by (simp add: modelPreHandle_def go_append_def make_slice_def go_copy_def wipe_def
        slice_read_def Let_def)
  from r(1) m have "slice_read h4 res = [None, None]"
    by (auto simp: slice_read_def)
  moreover from r(4) have "slice_read h4 (Messages st1)
      = [Some (UserMessage ''a''), Some (UserMessage ''b'')]"
    by (simp add: slice_read_def)
  ultimately show ?thesis using wf wipe_frame r(1) by auto
qed

section \<open>Properties of the graph and of a run\<close>


lemma next_model:
  "next_node (NewAgent_graph config) nodeKeyModel sr st = modelPostBranchCondition config sr"
  by (simp add: next_node_def NewAgent_graph_def)

lemma next_tools:
  "next_node (NewAgent_graph config) nodeKeyTools sr st =
     (if ToolReturnDirectly config \<noteq> {} then Inr (returnDirectlyBranch st) else Inr nodeKeyModel)"
  by (simp add: next_node_def NewAgent_graph_def)

lemma next_direct:
  "ToolReturnDirectly config \<noteq> {} \<Longrightarrow>
   next_node (NewAgent_graph config) nodeKeyDirectReturn sr st = Inr END"
  by (simp add: next_node_def NewAgent_graph_def)

lemma exec_model:
  "exec_node config nodeKeyModel (VMsgs input) h st =
     (let (h1, st1, sl) = modelPreHandle (MessageModifier config) h input st
      in case ToolCallingModel config (slice_read h1 sl) of
           Inl err \<Rightarrow> (Inl err, h1, st1)
         | Inr out \<Rightarrow> (Inr (VMsg out), h1, st1))"
  by (simp add: exec_node_def)

lemma toolsNodePreHandle_total:
  "\<exists>h1 st1. toolsNodePreHandle trd h (Some m) st = Some (h1, st1, Some m)
      \<and> ReturnDirectlyToolCallID st1 = getReturnDirectlyToolCallID m trd"
  by (simp add: toolsNodePreHandle_def split: prod.splits)

lemma exec_tools:
  "\<exists>h1 st1. ReturnDirectlyToolCallID st1 = getReturnDirectlyToolCallID m (ToolReturnDirectly config)
     \<and> exec_node config nodeKeyTools (VMsg m) h st =
       (case ToolsConfig config m of
          Inl err \<Rightarrow> (Inl err, h1, st1)
        | Inr msgs \<Rightarrow> (Inr (VMsgs msgs), h1, st1))"
proof -
  from toolsNodePreHandle_total [of "ToolReturnDirectly config" h m st]
  obtain h1 st1 where
    "toolsNodePreHandle (ToolReturnDirectly config) h (Some m) st = Some (h1, st1, Some m)"
    "ReturnDirectlyToolCallID st1 = getReturnDirectlyToolCallID m (ToolReturnDirectly config)"
    by blast
  then show ?thesis by (auto simp: exec_node_def)
qed

lemma exec_direct:
  "exec_node config nodeKeyDirectReturn (VMsgs msgs) h st =
     (case directReturn_convert st msgs of
        Inl err \<Rightarrow> (Inl (ExecError ''stream reader is empty''), h, st)
      | Inr msg \<Rightarrow> (Inr (VMsg msg), h, st))"
  by (simp add: exec_node_def directReturn_blocking split: sum.splits)

text \<open>One step of the run at the model node.\<close>

lemma run_model_step:
  assumes "modelPreHandle (MessageModifier config) h input st = (h1, st1, sl)"
    and "ToolCallingModel config (slice_read h1 sl) = Inr out"
  shows "run config (Suc k) nodeKeyModel (VMsgs input) h st tr =
     (case toolCallChecker config [Inr out] of
        Inl err \<Rightarrow> (Inl err, h1, st1, tr @ [nodeKeyModel])
      | Inr isToolCall \<Rightarrow>
          if isToolCall then run config k nodeKeyTools (VMsg out) h1 st1 (tr @ [nodeKeyModel])
          else (Inr out, h1, st1, tr @ [nodeKeyModel]))"
  using assms
  by (simp add: exec_model next_model modelPostBranchCondition_def stream_of_def
      split: sum.splits)

lemma run_model_fail:
  assumes "modelPreHandle (MessageModifier config) h input st = (h1, st1, sl)"
    and "ToolCallingModel config (slice_read h1 sl) = Inl err"
  shows "run config (Suc k) nodeKeyModel (VMsgs input) h st tr =
     (Inl err, h1, st1, tr @ [nodeKeyModel])"
  using assms by (simp add: exec_model)

text \<open>One step of the run at the tools node.\<close>

lemma run_tools_step:
  assumes "ToolsConfig config m = Inr msgs"
  shows "\<exists>h1 st1.
     ReturnDirectlyToolCallID st1 = getReturnDirectlyToolCallID m (ToolReturnDirectly config)
     \<and> run config (Suc k) nodeKeyTools (VMsg m) h st tr =
       run config k
         (if ToolReturnDirectly config \<noteq> {} then returnDirectlyBranch st1 else nodeKeyModel)
         (VMsgs msgs) h1 st1 (tr @ [nodeKeyTools])"
proof -
  from exec_tools [of m config h st] assms obtain h1 st1 where
    a: "ReturnDirectlyToolCallID st1 = getReturnDirectlyToolCallID m (ToolReturnDirectly config)"
    and b: "exec_node config nodeKeyTools (VMsg m) h st = (Inr (VMsgs msgs), h1, st1)"
    by auto
  have "run config (Suc k) nodeKeyTools (VMsg m) h st tr =
       run config k
         (if ToolReturnDirectly config \<noteq> {} then returnDirectlyBranch st1 else nodeKeyModel)
         (VMsgs msgs) h1 st1 (tr @ [nodeKeyTools])"
    by (simp add: b next_tools returnDirectlyBranch_def)
  with a show ?thesis by blast
qed

lemma run_direct_step:
  assumes "ToolReturnDirectly config \<noteq> {}"
  shows "run config (Suc k) nodeKeyDirectReturn (VMsgs msgs) h st tr =
     ((case directReturn_convert st msgs of
         Inl err \<Rightarrow> Inl (ExecError ''stream reader is empty'')
       | Inr msg \<Rightarrow> Inr msg), h, st, tr @ [nodeKeyDirectReturn])"
  using assms by (simp add: exec_direct next_direct stream_of_def split: sum.splits)

lemma length_alternate: "length (alternate n k) = k"
  by (induction k arbitrary: n) simp_all




section \<open>The loop without direct return\<close>




section \<open>The two branches\<close>

lemma next_model_detector:
  assumes "StreamToolCallChecker config = Some chk
      \<or> (StreamToolCallChecker config = None \<and> chk = firstChunkStreamToolCallChecker)"
  shows "toolCallChecker config = chk"
  using assms by (auto simp: toolCallChecker_def)

text \<open>
  C5. The detector is the configured checker, or the default one when none is
  configured. After the model node the branch takes the run to the tools node
  when the detector answers true; when it answers false the run ends there
  with the message of the model as its output; an error of the detector ends
  the run with that error. After the tools node, with a non-empty direct-return
  set the run goes to the direct-return node when the marker is non-empty and
  back to the model node when it is empty; with an empty direct-return set it
  always goes back to the model node. The direct-return node is followed by
  END: the run ends there, with the result that matches the marker when the
  batch has one.
\<close>

theorem branch_routing:
  "(StreamToolCallChecker config = Some chk
      \<or> (StreamToolCallChecker config = None \<and> chk = firstChunkStreamToolCallChecker)
    \<longrightarrow>
      next_node (NewAgent_graph config) nodeKeyModel sr st
        = (case chk sr of Inl err \<Rightarrow> Inl err
           | Inr isToolCall \<Rightarrow> Inr (if isToolCall then nodeKeyTools else END))
      \<and> (modelPreHandle (MessageModifier config) h inp st = (h1, st1, sl)
           \<and> ToolCallingModel config (slice_read h1 sl) = Inr out
         \<longrightarrow>
           (chk [Inr out] = Inr True \<longrightarrow>
              run config (Suc k) nodeKeyModel (VMsgs inp) h st tr
                = run config k nodeKeyTools (VMsg out) h1 st1 (tr @ [nodeKeyModel]))
           \<and> (chk [Inr out] = Inr False \<longrightarrow>
              run config (Suc k) nodeKeyModel (VMsgs inp) h st tr
                = (Inr out, h1, st1, tr @ [nodeKeyModel]))
           \<and> (chk [Inr out] = Inl err \<longrightarrow>
              run config (Suc k) nodeKeyModel (VMsgs inp) h st tr
                = (Inl err, h1, st1, tr @ [nodeKeyModel]))))
   \<and> (ToolsConfig config m = Inr msgs \<longrightarrow>
        (\<exists>h2 st2. toolsNodePreHandle (ToolReturnDirectly config) h (Some m) st = Some (h2, st2, Some m)
           \<and> next_node (NewAgent_graph config) nodeKeyTools sr st2
               = Inr (if ToolReturnDirectly config \<noteq> {} \<and> ReturnDirectlyToolCallID st2 \<noteq> []
                      then nodeKeyDirectReturn else nodeKeyModel)
           \<and> run config (Suc k) nodeKeyTools (VMsg m) h st tr
               = run config k
                   (if ToolReturnDirectly config \<noteq> {} \<and> ReturnDirectlyToolCallID st2 \<noteq> []
                    then nodeKeyDirectReturn else nodeKeyModel)
                   (VMsgs msgs) h2 st2 (tr @ [nodeKeyTools])))
   \<and> (ToolReturnDirectly config \<noteq> {} \<longrightarrow>
        next_node (NewAgent_graph config) nodeKeyDirectReturn sr st = Inr END
        \<and> run config (Suc k) nodeKeyDirectReturn (VMsgs msgs) h st tr
            = ((case directReturn_convert st msgs of
                  Inl err \<Rightarrow> Inl (ExecError ''stream reader is empty'')
                | Inr msg \<Rightarrow> Inr msg), h, st, tr @ [nodeKeyDirectReturn]))"
proof -
  have a: "next_node (NewAgent_graph config) nodeKeyModel sr st
        = (case chk sr of Inl err \<Rightarrow> Inl err
           | Inr isToolCall \<Rightarrow> Inr (if isToolCall then nodeKeyTools else END))"
    if "toolCallChecker config = chk"
    using that by (auto simp: next_model modelPostBranchCondition_def split: sum.splits)
  have b: "(chk [Inr out] = Inr True \<longrightarrow>
              run config (Suc k) nodeKeyModel (VMsgs inp) h st tr
                = run config k nodeKeyTools (VMsg out) h1 st1 (tr @ [nodeKeyModel]))
           \<and> (chk [Inr out] = Inr False \<longrightarrow>
              run config (Suc k) nodeKeyModel (VMsgs inp) h st tr
                = (Inr out, h1, st1, tr @ [nodeKeyModel]))
           \<and> (chk [Inr out] = Inl err \<longrightarrow>
              run config (Suc k) nodeKeyModel (VMsgs inp) h st tr
                = (Inl err, h1, st1, tr @ [nodeKeyModel]))"
    if "toolCallChecker config = chk"
      "modelPreHandle (MessageModifier config) h inp st = (h1, st1, sl)"
      "ToolCallingModel config (slice_read h1 sl) = Inr out"
    using run_model_step [OF that(2) that(3), of k tr] that(1) by simp
  have c: "\<exists>h2 st2. toolsNodePreHandle (ToolReturnDirectly config) h (Some m) st = Some (h2, st2, Some m)
           \<and> next_node (NewAgent_graph config) nodeKeyTools sr st2
               = Inr (if ToolReturnDirectly config \<noteq> {} \<and> ReturnDirectlyToolCallID st2 \<noteq> []
                      then nodeKeyDirectReturn else nodeKeyModel)
           \<and> run config (Suc k) nodeKeyTools (VMsg m) h st tr
               = run config k
                   (if ToolReturnDirectly config \<noteq> {} \<and> ReturnDirectlyToolCallID st2 \<noteq> []
                    then nodeKeyDirectReturn else nodeKeyModel)
                   (VMsgs msgs) h2 st2 (tr @ [nodeKeyTools])"
    if t: "ToolsConfig config m = Inr msgs"
  proof -
    from toolsNodePreHandle_total [of "ToolReturnDirectly config" h m st]
    obtain h2 st2 where
      p: "toolsNodePreHandle (ToolReturnDirectly config) h (Some m) st = Some (h2, st2, Some m)"
      by blast
    have e: "exec_node config nodeKeyTools (VMsg m) h st = (Inr (VMsgs msgs), h2, st2)"
      by (simp add: exec_node_def p t)
    have n: "next_node (NewAgent_graph config) nodeKeyTools s st2
               = Inr (if ToolReturnDirectly config \<noteq> {} \<and> ReturnDirectlyToolCallID st2 \<noteq> []
                      then nodeKeyDirectReturn else nodeKeyModel)" for s
      by (simp add: next_tools returnDirectlyBranch_def)
    have "run config (Suc k) nodeKeyTools (VMsg m) h st tr
               = run config k
                   (if ToolReturnDirectly config \<noteq> {} \<and> ReturnDirectlyToolCallID st2 \<noteq> []
                    then nodeKeyDirectReturn else nodeKeyModel)
                   (VMsgs msgs) h2 st2 (tr @ [nodeKeyTools])"
      by (simp add: e n)
    with p n show ?thesis by blast
  qed
  have d: "next_node (NewAgent_graph config) nodeKeyDirectReturn sr st = Inr END
        \<and> run config (Suc k) nodeKeyDirectReturn (VMsgs msgs) h st tr
            = ((case directReturn_convert st msgs of
                  Inl err \<Rightarrow> Inl (ExecError ''stream reader is empty'')
                | Inr msg \<Rightarrow> Inr msg), h, st, tr @ [nodeKeyDirectReturn])"
    if "ToolReturnDirectly config \<noteq> {}"
    using that next_direct [OF that, of sr st] run_direct_step [OF that, of k msgs h st tr]
    by simp
  show ?thesis
    using a b c d next_model_detector [of config chk] by blast
qed

theorem branch_routing_witness:
  "StreamToolCallChecker deafConfig = Some (\<lambda>sr. Inr False)
   \<and> run deafConfig (Suc 0) nodeKeyModel (VMsgs [Some (UserMessage ''q'')]) [[None, None]]
       \<lparr>Messages = \<lparr>base = 0, len = 0, cap = 2\<rparr>, ReturnDirectlyToolCallID = []\<rparr> []
     = (Inr (fragment [] [call ''c1'' ''search'']), [[Some (UserMessage ''q''), None]],
        \<lparr>Messages = \<lparr>base = 0, len = 1, cap = 2\<rparr>, ReturnDirectlyToolCallID = []\<rparr>,
        [nodeKeyModel])
   \<and> StreamToolCallChecker (searchConfig ''c1'' {''search''} 12) = None
   \<and> run (searchConfig ''c1'' {''search''} 12) (Suc (Suc (Suc 0))) nodeKeyModel
       (VMsgs [Some (UserMessage ''q'')]) [[None, None]]
       \<lparr>Messages = \<lparr>base = 0, len = 0, cap = 2\<rparr>, ReturnDirectlyToolCallID = []\<rparr> []
     = run (searchConfig ''c1'' {''search''} 12) (Suc (Suc 0)) nodeKeyTools
         (VMsg (fragment [] [call ''c1'' ''search''])) [[Some (UserMessage ''q''), None]]
         \<lparr>Messages = \<lparr>base = 0, len = 1, cap = 2\<rparr>, ReturnDirectlyToolCallID = []\<rparr>
         [nodeKeyModel]
   \<and> run (searchConfig ''c1'' {''search''} 12) (Suc (Suc 0)) nodeKeyTools
         (VMsg (fragment [] [call ''c1'' ''search''])) [[Some (UserMessage ''q''), None]]
         \<lparr>Messages = \<lparr>base = 0, len = 1, cap = 2\<rparr>, ReturnDirectlyToolCallID = []\<rparr>
         [nodeKeyModel]
     = run (searchConfig ''c1'' {''search''} 12) (Suc 0) nodeKeyDirectReturn
         (VMsgs [Some (ToolMessage ''result'' ''c1'')])
         [[Some (UserMessage ''q''), Some (fragment [] [call ''c1'' ''search''])]]
         \<lparr>Messages = \<lparr>base = 0, len = 2, cap = 2\<rparr>, ReturnDirectlyToolCallID = ''c1''\<rparr>
         [nodeKeyModel, nodeKeyTools]
   \<and> run (searchConfig ''c1'' {''search''} 12) (Suc 0) nodeKeyDirectReturn
         (VMsgs [Some (ToolMessage ''result'' ''c1'')])
         [[Some (UserMessage ''q''), Some (fragment [] [call ''c1'' ''search''])]]
         \<lparr>Messages = \<lparr>base = 0, len = 2, cap = 2\<rparr>, ReturnDirectlyToolCallID = ''c1''\<rparr>
         [nodeKeyModel, nodeKeyTools]
     = (Inr (ToolMessage ''result'' ''c1''),
        [[Some (UserMessage ''q''), Some (fragment [] [call ''c1'' ''search''])]],
        \<lparr>Messages = \<lparr>base = 0, len = 2, cap = 2\<rparr>, ReturnDirectlyToolCallID = ''c1''\<rparr>,
        [nodeKeyModel, nodeKeyTools, nodeKeyDirectReturn])"
proof -
  let ?u = "UserMessage ''q''"
  let ?out = "fragment [] [call ''c1'' ''search'']"
  let ?tm = "ToolMessage ''result'' ''c1''"
  let ?sc = "searchConfig ''c1'' {''search''} 12"
  let ?h0 = "[[None, None]] :: heap"
  let ?h1 = "[[Some ?u, None]] :: heap"
  let ?h2 = "[[Some ?u, Some ?out]] :: heap"
  let ?st0 = "\<lparr>Messages = \<lparr>base = 0, len = 0, cap = 2\<rparr>, ReturnDirectlyToolCallID = []\<rparr>"
  let ?st1 = "\<lparr>Messages = \<lparr>base = 0, len = 1, cap = 2\<rparr>, ReturnDirectlyToolCallID = []\<rparr>"
  let ?st2 = "\<lparr>Messages = \<lparr>base = 0, len = 2, cap = 2\<rparr>, ReturnDirectlyToolCallID = ''c1''\<rparr>"
  let ?sl = "\<lparr>base = 0, len = 1, cap = 2\<rparr>"
  have dchk: "StreamToolCallChecker deafConfig = Some (\<lambda>sr. Inr False)"
    by (simp add: deafConfig_def)
  have dpre: "modelPreHandle (MessageModifier deafConfig) ?h0 [Some ?u] ?st0 = (?h1, ?st1, ?sl)"
    by (simp add: modelPreHandle_def deafConfig_def go_append_def)
  have dmod: "ToolCallingModel deafConfig (slice_read ?h1 ?sl) = Inr ?out"
    by (simp add: deafConfig_def)
  have A: "run deafConfig (Suc 0) nodeKeyModel (VMsgs [Some ?u]) ?h0 ?st0 []
      = (Inr ?out, ?h1, ?st1, [nodeKeyModel])"
    using branch_routing [of deafConfig "\<lambda>sr. Inr False" "[]" ?st0 ?h0 "[Some ?u]" ?h1 ?st1 ?sl
        ?out 0 "[]" ErrNoValue ?out "[]"] dchk dpre dmod
    by simp
  have schk: "StreamToolCallChecker ?sc = None" by (simp add: searchConfig_def)
  have spre: "modelPreHandle (MessageModifier ?sc) ?h0 [Some ?u] ?st0 = (?h1, ?st1, ?sl)"
    by (simp add: modelPreHandle_def searchConfig_def go_append_def)
  have smod: "ToolCallingModel ?sc (slice_read ?h1 ?sl) = Inr ?out"
    by (simp add: searchConfig_def searchModel_def slice_read_def)
  have sdet: "firstChunkStreamToolCallChecker [Inr ?out] = Inr True"
    by (simp add: fragment_def)
  have B: "run ?sc (Suc (Suc (Suc 0))) nodeKeyModel (VMsgs [Some ?u]) ?h0 ?st0 []
      = run ?sc (Suc (Suc 0)) nodeKeyTools (VMsg ?out) ?h1 ?st1 [nodeKeyModel]"
    using branch_routing [of ?sc firstChunkStreamToolCallChecker "[]" ?st0 ?h0 "[Some ?u]" ?h1
        ?st1 ?sl ?out "Suc (Suc 0)" "[]" ErrNoValue ?out "[]"] schk spre smod sdet
    by simp
  have stl: "ToolsConfig ?sc ?out = Inr [Some ?tm]"
    by (simp add: searchConfig_def searchTools_def fragment_def call_def)
  have tpre: "toolsNodePreHandle (ToolReturnDirectly ?sc) ?h1 (Some ?out) ?st1
      = Some (?h2, ?st2, Some ?out)"
    by (simp add: toolsNodePreHandle_def searchConfig_def go_append_def
        getReturnDirectlyToolCallID_def fragment_def call_def)
  have trd: "ToolReturnDirectly ?sc \<noteq> {}" by (simp add: searchConfig_def)
  from branch_routing [of ?sc firstChunkStreamToolCallChecker "[]" ?st1 ?h1 "[]" ?h1 ?st1 ?sl
      ?out "Suc 0" "[nodeKeyModel]" ErrNoValue ?out "[Some ?tm]"] stl
  obtain h2 st2 where
    p: "toolsNodePreHandle (ToolReturnDirectly ?sc) ?h1 (Some ?out) ?st1 = Some (h2, st2, Some ?out)"
    and r: "run ?sc (Suc (Suc 0)) nodeKeyTools (VMsg ?out) ?h1 ?st1 [nodeKeyModel]
        = run ?sc (Suc 0)
            (if ToolReturnDirectly ?sc \<noteq> {} \<and> ReturnDirectlyToolCallID st2 \<noteq> []
             then nodeKeyDirectReturn else nodeKeyModel)
            (VMsgs [Some ?tm]) h2 st2 ([nodeKeyModel] @ [nodeKeyTools])"
    by blast
  from p tpre have e: "h2 = ?h2" "st2 = ?st2" by simp_all
  have C: "run ?sc (Suc (Suc 0)) nodeKeyTools (VMsg ?out) ?h1 ?st1 [nodeKeyModel]
      = run ?sc (Suc 0) nodeKeyDirectReturn (VMsgs [Some ?tm]) ?h2 ?st2
          [nodeKeyModel, nodeKeyTools]"
    using r trd unfolding e by simp
  have D: "run ?sc (Suc 0) nodeKeyDirectReturn (VMsgs [Some ?tm]) ?h2 ?st2
        [nodeKeyModel, nodeKeyTools]
      = (Inr ?tm, ?h2, ?st2, [nodeKeyModel, nodeKeyTools, nodeKeyDirectReturn])"
    using branch_routing [of ?sc firstChunkStreamToolCallChecker "[]" ?st2 ?h2 "[]" ?h1 ?st1 ?sl
        ?out 0 "[nodeKeyModel, nodeKeyTools]" ErrNoValue ?out "[Some ?tm]"] trd
    by (simp add: ToolMessage_def)
  from dchk A schk B C D show ?thesis by simp
qed

section \<open>Direct return\<close>

text \<open>
  C1 (for a call with a non-empty ID). When the message that reaches the tools node has a tool call
  whose name is in the direct-return set, the first such call has a non-empty
  ID, the tools return a batch whose first result with that \<open>ToolCallID\<close> is
  \<open>r\<close>, and the step bound leaves two steps (for the tools node and the
  extractor), then the run ends with \<open>r\<close> as its output, and after the tools
  node only the direct-return node runs: the model is not called again.
\<close>

theorem direct_return_run:
  assumes "ToolCalls m = pre @ c # post"
    and "\<forall>tc \<in> set pre. Name (Function tc) \<notin> ToolReturnDirectly config"
    and "Name (Function c) \<in> ToolReturnDirectly config"
    and "ID c \<noteq> []"
    and "ToolsConfig config m = Inr (rpre @ Some r # rpost)"
    and "\<forall>x. Some x \<in> set rpre \<longrightarrow> ToolCallID x \<noteq> ID c"
    and "ToolCallID r = ID c"
  shows "\<exists>h1 st1. run config (Suc (Suc k)) nodeKeyTools (VMsg m) h st tr =
     (Inr r, h1, st1, tr @ [nodeKeyTools, nodeKeyDirectReturn])"
proof -
  from assms(3) have ne: "ToolReturnDirectly config \<noteq> {}" by blast
  have marker: "getReturnDirectlyToolCallID m (ToolReturnDirectly config) = ID c"
    using ne assms(1) getReturnDirectly_first [OF assms(2) assms(3), of post]
    by (simp add: getReturnDirectlyToolCallID_def)
  from run_tools_step [OF assms(5), of "Suc k" h st tr] ne marker obtain h1 st1 where
    st1: "ReturnDirectlyToolCallID st1 = ID c"
    and step: "run config (Suc (Suc k)) nodeKeyTools (VMsg m) h st tr =
       run config (Suc k) (returnDirectlyBranch st1) (VMsgs (rpre @ Some r # rpost)) h1 st1
         (tr @ [nodeKeyTools])"
    by auto
  have br: "returnDirectlyBranch st1 = nodeKeyDirectReturn"
    using st1 assms(4) by (simp add: returnDirectlyBranch_def)
  have ex: "directReturn_convert st1 (rpre @ Some r # rpost) = Inr r"
    using directReturn_first [of rpre st1 r rpost] assms(6) assms(7) st1 by simp
  have "run config (Suc (Suc k)) nodeKeyTools (VMsg m) h st tr =
     (Inr r, h1, st1, tr @ [nodeKeyTools, nodeKeyDirectReturn])"
    unfolding step br run_direct_step [OF ne] ex by simp
  then show ?thesis by blast
qed

theorem direct_return_run_witness:
  "\<exists>h1 st1. run (searchConfig ''c1'' {''search''} 12) (Suc (Suc 0)) nodeKeyTools
       (VMsg (fragment [] [call ''c1'' ''search'']))
       [[Some (UserMessage ''q''), None]]
       \<lparr>Messages = \<lparr>base = 0, len = 1, cap = 2\<rparr>, ReturnDirectlyToolCallID = []\<rparr>
       [nodeKeyModel]
     = (Inr (ToolMessage ''result'' ''c1''), h1, st1,
        [nodeKeyModel, nodeKeyTools, nodeKeyDirectReturn])"
proof -
  let ?c = "searchConfig ''c1'' {''search''} 12"
  let ?m = "fragment [] [call ''c1'' ''search'']"
  have a: "ToolCalls ?m = [] @ call ''c1'' ''search'' # []" by (simp add: fragment_def)
  have b: "\<forall>tc \<in> set []. Name (Function tc) \<notin> ToolReturnDirectly ?c" by simp
  have c: "Name (Function (call ''c1'' ''search'')) \<in> ToolReturnDirectly ?c"
    by (simp add: call_def searchConfig_def)
  have d: "ID (call ''c1'' ''search'') \<noteq> []" by (simp add: call_def)
  have e: "ToolsConfig ?c ?m = Inr ([] @ Some (ToolMessage ''result'' ''c1'') # [])"
    by (simp add: searchConfig_def searchTools_def fragment_def call_def)
  have f: "\<forall>x. Some x \<in> set [] \<longrightarrow> ToolCallID x \<noteq> ID (call ''c1'' ''search'')" by simp
  have g: "ToolCallID (ToolMessage ''result'' ''c1'') = ID (call ''c1'' ''search'')"
    by (simp add: ToolMessage_def call_def)
  from direct_return_run [OF a b c d e f g, of 0 "[[Some (UserMessage ''q''), None]]"
      "\<lparr>Messages = \<lparr>base = 0, len = 1, cap = 2\<rparr>, ReturnDirectlyToolCallID = []\<rparr>"
      "[nodeKeyModel]"]
  show ?thesis by simp
qed

text \<open>
  Without the condition on the ID the statement fails for a tool call with an empty ID: the
  marker is then the empty string, which the branch after the tools node reads
  as no direct return, and the model is called again. Here the call of the
  search tool is eligible and its result carries the ID of the call, yet the
  run ends with the second message of the model.
\<close>

theorem direct_return_empty_id_counterexample:
  "Name (Function (call [] ''search'')) \<in> ToolReturnDirectly (searchConfig [] {''search''} 12)
   \<and> ToolsConfig (searchConfig [] {''search''} 12) (fragment [] [call [] ''search''])
       = Inr [Some (ToolMessage ''result'' [])]
   \<and> ToolCallID (ToolMessage ''result'' []) = ID (call [] ''search'')
   \<and> fst (Generate (searchConfig [] {''search''} 12) [Some (UserMessage ''q'')])
       = Inr (fragment ''done'' [])
   \<and> fst (Generate (searchConfig [] {''search''} 12) [Some (UserMessage ''q'')])
       \<noteq> Inr (ToolMessage ''result'' [])
   \<and> snd (snd (snd (Generate (searchConfig [] {''search''} 12) [Some (UserMessage ''q'')])))
       = [nodeKeyModel, nodeKeyTools, nodeKeyModel]"
  by (simp add: Generate_def searchConfig_def make_slice_def next_node_def NewAgent_graph_def
      maxRunSteps_def exec_node_def modelPreHandle_def go_append_def searchModel_def searchTools_def
      fragment_def call_def stream_of_def modelPostBranchCondition_def toolCallChecker_def
      toolsNodePreHandle_def getReturnDirectlyToolCallID_def returnDirectlyBranch_def
      ToolMessage_def UserMessage_def slice_read_def Let_def numeral_nat)

section \<open>Properties of the registration\<close>

lemma NewAgent_done:
  "registerStateOnce p \<Longrightarrow> NewAgent reg build p = (build, p)"
  by (simp add: NewAgent_def registerState_def)

lemma NewAgent_calls_done:
  "registerStateOnce p \<Longrightarrow> NewAgent_calls calls p = (map snd calls, p)"
  by (induction calls) (auto simp: NewAgent_done)

lemma NewAgent_first_fails:
  "\<not> registerStateOnce p \<Longrightarrow> reg (registry p) ''_eino_react_state'' = Some err \<Longrightarrow>
   NewAgent reg build p = (Inl err, p\<lparr>registerStateOnce := True\<rparr>)"
  by (simp add: NewAgent_def registerState_def RegisterSerializableType_def)

text \<open>
  C10. When the registration fails in the first call of NewAgent of a process,
  that call returns the error of the registration; every later call, whatever
  the registration would answer then, skips the registration, sees no error
  from it and goes on to build the agent, and the registry stays as it was:
  the type is never registered.
\<close>

theorem registration_attempted_once:
  assumes "\<not> registerStateOnce p"
    and "reg (registry p) ''_eino_react_state'' = Some err"
  shows "NewAgent_calls ((reg, build) # calls) p =
           (Inl err # map snd calls, p\<lparr>registerStateOnce := True\<rparr>)
       \<and> registry (snd (NewAgent_calls ((reg, build) # calls) p)) = registry p"
  using NewAgent_first_fails [of p reg err build] assms
    NewAgent_calls_done [of "p\<lparr>registerStateOnce := True\<rparr>" calls]
  by simp

theorem registration_attempted_once_witness:
  "NewAgent_calls
     [(\<lambda>r n. Some (RegisterError ''duplicate''), Inr (1::nat)), (\<lambda>r n. None, Inr 2),
      (\<lambda>r n. None, Inr 3)]
     \<lparr>registerStateOnce = False, registry = {}\<rparr>
   = ([Inl (RegisterError ''duplicate''), Inr 2, Inr 3],
      \<lparr>registerStateOnce = True, registry = {}\<rparr>)"
  using registration_attempted_once [of "\<lparr>registerStateOnce = False, registry = {}\<rparr>"
      "\<lambda>r n. Some (RegisterError ''duplicate'')" "RegisterError ''duplicate''" "Inr (1::nat)"
      "[(\<lambda>r n. None, Inr 2), (\<lambda>r n. None, Inr 3)]"]
  by simp

section \<open>Properties of concatToolCalls\<close>

lemma filter_nth_snoc:
  "filter (\<lambda>j. Index ((xs @ [x]) ! j) = Some ix) [0..<length xs]
     = filter (\<lambda>j. Index (xs ! j) = Some ix) [0..<length xs]"
  by (rule filter_cong) (auto simp: nth_append)

lemma groupChunks_eq:
  "groupChunks xs =
     (filter (\<lambda>c. Index c = None) xs,
      \<lambda>ix. (let l = filter (\<lambda>j. Index (xs ! j) = Some ix) [0..<length xs]
            in if l = [] then None else Some l))"
proof (induction xs rule: rev_induct)
  case Nil
  then show ?case by (simp add: groupChunks_def)
next
  case (snoc x xs)
  have e: "enumerate 0 (xs @ [x]) = enumerate 0 xs @ [(length xs, x)]"
    by (simp add: enumerate_append_eq)
  have st: "groupChunks (xs @ [x]) = groupStep (groupChunks xs) (length xs, x)"
    by (simp add: groupChunks_def e)
  show ?case
  proof (cases "Index x")
    case None
    then show ?thesis
      unfolding st snoc.IH
      by (simp add: groupStep_def filter_nth_snoc Let_def)
  next
    case (Some ix0)
    then show ?thesis
      unfolding st snoc.IH
      by (auto simp: groupStep_def filter_nth_snoc Let_def fun_eq_iff)
  qed
qed

lemma map_nth_filter:
  "map (nth xs) (filter (\<lambda>j. P (xs ! j)) [0..<length xs]) = filter P xs"
proof -
  have "filter P xs = filter P (map (nth xs) [0..<length xs])" by (simp add: map_nth)
  also have "\<dots> = map (nth xs) (filter (P \<circ> nth xs) [0..<length xs])" by (simp only: filter_map)
  finally show ?thesis by (simp add: comp_def)
qed

lemma last_nonempty_snoc:
  "last_nonempty (xs @ [x]) = (if x \<noteq> [] then x else last_nonempty xs)"
  by (simp add: last_nonempty_def Let_def)

lemma foldl_mergeChunk:
  "foldl mergeChunk
     (\<lparr>Index = Some ix, ID = [], Type = [], Function = \<lparr>Name = [], Arguments = []\<rparr>\<rparr>, []) grp =
   (\<lparr>Index = Some ix, ID = last_nonempty (map ID grp), Type = last_nonempty (map Type grp),
     Function = \<lparr>Name = last_nonempty (map (\<lambda>c. Name (Function c)) grp), Arguments = []\<rparr>\<rparr>,
    concat (map (\<lambda>c. Arguments (Function c)) grp))"
proof (induction grp rule: rev_induct)
  case Nil
  then show ?case by (simp add: last_nonempty_def)
next
  case (snoc c grp)
  then show ?case
    by (simp add: mergeChunk_def last_nonempty_snoc Let_def)
qed

lemma mergeGroup_eq:
  "mergeGroup chunks ix idxs = merged_request ix (map (nth chunks) idxs)"
proof -
  have "foldl (\<lambda>acc chunkIdx. mergeChunk acc (chunks ! chunkIdx)) a idxs
      = foldl mergeChunk a (map (nth chunks) idxs)" for a
    by (simp add: foldl_map)
  then show ?thesis
    by (simp add: mergeGroup_def foldl_mergeChunk merged_request_def)
qed

lemma concatToolCalls_eq:
  "concatToolCalls keys chunks =
     Inr (filter (\<lambda>c. Index c = None) chunks @
          map (\<lambda>ix. merged_request ix (filter (\<lambda>c. Index c = Some ix) chunks)) keys)"
proof -
  have g: "mergeGroup chunks ix
       (case (let l = filter (\<lambda>j. Index (chunks ! j) = Some ix) [0..<length chunks]
              in if l = [] then None else Some l) of None \<Rightarrow> [] | Some l \<Rightarrow> l)
     = merged_request ix (filter (\<lambda>c. Index c = Some ix) chunks)" for ix
  proof -
    have "(case (let l = filter (\<lambda>j. Index (chunks ! j) = Some ix) [0..<length chunks]
              in if l = [] then None else Some l) of None \<Rightarrow> [] | Some l \<Rightarrow> l)
        = filter (\<lambda>j. Index (chunks ! j) = Some ix) [0..<length chunks]"
      by (simp add: Let_def)
    then show ?thesis
      by (simp only: mergeGroup_eq map_nth_filter [of chunks "\<lambda>c. Index c = Some ix"])
  qed
  show ?thesis
    by (simp add: concatToolCalls_def groupChunks_eq g)
qed

lemma dom_groupChunks:
  "dom (snd (groupChunks chunks)) = {ix. \<exists>c \<in> set chunks. Index c = Some ix}"
proof -
  have "filter (\<lambda>j. Index (chunks ! j) = Some ix) [0..<length chunks] \<noteq> []
      \<longleftrightarrow> (\<exists>c \<in> set chunks. Index c = Some ix)" for ix
  proof
    assume "filter (\<lambda>j. Index (chunks ! j) = Some ix) [0..<length chunks] \<noteq> []"
    then obtain j where "j < length chunks" "Index (chunks ! j) = Some ix"
      by (auto simp: filter_empty_conv)
    then show "\<exists>c \<in> set chunks. Index c = Some ix"
      using nth_mem by blast
  next
    assume "\<exists>c \<in> set chunks. Index c = Some ix"
    then obtain j where "j < length chunks" "Index (chunks ! j) = Some ix"
      by (auto simp: in_set_conv_nth)
    then show "filter (\<lambda>j. Index (chunks ! j) = Some ix) [0..<length chunks] \<noteq> []"
      by (auto simp: filter_empty_conv)
  qed
  then show ?thesis
    by (auto simp: groupChunks_eq dom_def Let_def)
qed

lemma last_first_nonempty:
  "length (filter (\<lambda>x. x \<noteq> []) xs) \<le> 1 \<Longrightarrow> last_nonempty xs = first_nonempty xs"
proof -
  assume a: "length (filter (\<lambda>x. x \<noteq> []) xs) \<le> 1"
  show ?thesis
  proof (cases "filter (\<lambda>x. x \<noteq> []) xs")
    case Nil
    then show ?thesis by (simp add: last_nonempty_def first_nonempty_def)
  next
    case (Cons y ys)
    with a have "ys = []" by simp
    with Cons show ?thesis by (simp add: last_nonempty_def first_nonempty_def)
  qed
qed

text \<open>
  On chunks that carry ID, type and name of an index in one chunk only, as the
  streaming notes describe them, concatToolCalls gives the merged request of
  the specification.
\<close>

lemma concatToolCalls_atomic:
  assumes "\<forall>ix \<in> set keys. \<forall>f \<in> {ID, Type, \<lambda>c. Name (Function c)}.
      length (filter (\<lambda>x. x \<noteq> []) (map f (filter (\<lambda>c. Index c = Some ix) chunks))) \<le> 1"
  shows "concatToolCalls keys chunks =
     Inr (filter (\<lambda>c. Index c = None) chunks @
          map (\<lambda>ix. first_request ix (filter (\<lambda>c. Index c = Some ix) chunks)) keys)"
proof -
  have "merged_request ix (filter (\<lambda>c. Index c = Some ix) chunks)
      = first_request ix (filter (\<lambda>c. Index c = Some ix) chunks)" if "ix \<in> set keys" for ix
    using assms that by (simp add: merged_request_def first_request_def last_first_nonempty)
  then show ?thesis by (simp add: concatToolCalls_eq)
qed

section \<open>Properties of the full-consume checker\<close>


















end
